theory Spec2Isabelle
  imports Complex_Main "HOL-Library.AList"
begin

section \<open>Python values and exceptions\<close>

text \<open>
  The module \<^verbatim>\<open>lib/charms/ovn.py\<close> talks to the outside world through
  \<^verbatim>\<open>subprocess.run\<close> and \<^verbatim>\<open>json.loads\<close> only.  Every exception that
  can leave one of its functions is a value of \<open>py_error\<close>; a function that can
  raise returns \<open>py_error + 'a\<close> with \<open>Inl\<close> for the exception.

  Text is a \<open>string\<close>: a list of characters read as the code points below 256.
  Output containing code points beyond that range is outside this model.
\<close>

datatype py_error =
    CalledProcessError   \<comment> \<open>\<^verbatim>\<open>check=True\<close> and the command exited non-zero\<close>
  | FileNotFoundError    \<comment> \<open>the executable does not exist\<close>
  | JSONDecodeError
  | KeyError
  | IndexError
  | TypeError
  | AttributeError
  | OtherError string    \<comment> \<open>any other exception of the process layer\<close>

text \<open>
  What \<^verbatim>\<open>json.loads\<close> returns: \<^verbatim>\<open>None\<close>, \<^verbatim>\<open>bool\<close>, \<^verbatim>\<open>int\<close>,
  \<^verbatim>\<open>float\<close> (the finite ones, as reals), \<^verbatim>\<open>str\<close>, \<^verbatim>\<open>list\<close> and \<^verbatim>\<open>dict\<close>
  (its items in insertion order, no key twice).
\<close>

datatype json =
    JNull
  | JBool bool
  | JInt int
  | JFloat real
  | JStr string
  | JList "json list"
  | JObj "(string \<times> json) list"

text \<open>
  A generator, seen from its consumer: it yields a value and goes on, stops, or
  raises.  \<^verbatim>\<open>list(g)\<close> collects the values and re-raises.
\<close>

datatype 'a gen = Stop | Raise py_error | Yield 'a "'a gen"

fun py_list :: "'a gen \<Rightarrow> py_error + 'a list" where
  "py_list Stop = Inr []"
| "py_list (Raise e) = Inl e"
| "py_list (Yield x g) = (case py_list g of Inl e \<Rightarrow> Inl e | Inr xs \<Rightarrow> Inr (x # xs))"

text \<open>
  The process layer.  \<open>run\<close> is \<^verbatim>\<open>subprocess.run(args, stdout=PIPE, stderr=STDOUT,
  check=True, universal_newlines=True).stdout\<close>: the captured text, or the
  exception.  An argument is \<open>Some s\<close> for a \<^verbatim>\<open>str\<close> and \<open>None\<close> for Python's
  \<^verbatim>\<open>None\<close>.  \<open>loads\<close> is \<^verbatim>\<open>json.loads\<close>.
\<close>

record env =
  run :: "string option list \<Rightarrow> py_error + string"
  loads :: "string \<Rightarrow> py_error + json"

definition OVS_RUNDIR :: string where
  "OVS_RUNDIR = ''/var/run/openvswitch''"

text \<open>\<^verbatim>\<open>_run(*args)\<close>; the model returns the \<^verbatim>\<open>stdout\<close> of the completed process.\<close>

definition run_proc :: "env \<Rightarrow> string option list \<Rightarrow> py_error + string" where
  "run_proc e args = run e args"

section \<open>String methods\<close>

text \<open>\<^verbatim>\<open>str.isspace\<close> on one character (code points below 256).\<close>

definition is_space :: "char \<Rightarrow> bool" where
  "is_space c \<longleftrightarrow> c \<in> {CHR 0x09, CHR 0x0A, CHR 0x0B, CHR 0x0C, CHR 0x0D,
     CHR 0x1C, CHR 0x1D, CHR 0x1E, CHR 0x1F, CHR 0x20, CHR 0x85, CHR 0xA0}"

text \<open>The line boundaries of \<^verbatim>\<open>str.splitlines\<close> other than \<^verbatim>\<open>\r\<close>.\<close>

definition is_linebreak :: "char \<Rightarrow> bool" where
  "is_linebreak c \<longleftrightarrow> c \<in> {CHR 0x0A, CHR 0x0B, CHR 0x0C,
     CHR 0x1C, CHR 0x1D, CHR 0x1E, CHR 0x85}"

fun splitlines_from :: "string \<Rightarrow> string \<Rightarrow> string list" where
  "splitlines_from cur [] = (if cur = [] then [] else [cur])"
| "splitlines_from cur (c # cs) =
     (if c = CHR 0x0D then
        (case cs of
           [] \<Rightarrow> [cur]
         | d # ds \<Rightarrow> if d = CHR 0x0A then cur # splitlines_from [] ds
                     else cur # splitlines_from [] (d # ds))
      else if is_linebreak c then cur # splitlines_from [] cs
      else splitlines_from (cur @ [c]) cs)"

definition splitlines :: "string \<Rightarrow> string list" where
  "splitlines s = splitlines_from [] s"

definition lstrip :: "string \<Rightarrow> string" where
  "lstrip s = dropWhile is_space s"

text \<open>\<^verbatim>\<open>s.split()\<close>: the maximal runs of non-whitespace.\<close>

fun split_from :: "string \<Rightarrow> string \<Rightarrow> string list" where
  "split_from cur [] = (if cur = [] then [] else [cur])"
| "split_from cur (c # cs) =
     (if is_space c then (if cur = [] then split_from [] cs else cur # split_from [] cs)
      else split_from (cur @ [c]) cs)"

definition py_split :: "string \<Rightarrow> string list" where
  "py_split s = split_from [] s"

text \<open>\<^verbatim>\<open>line.split(':', 1)\<close> for a line that contains the separator.\<close>

definition split_first :: "char \<Rightarrow> string \<Rightarrow> string \<times> string" where
  "split_first sep s = (takeWhile (\<lambda>c. c \<noteq> sep) s, tl (dropWhile (\<lambda>c. c \<noteq> sep) s))"

text \<open>\<^verbatim>\<open>str.lower\<close>: A-Z, and the upper-case letters of Latin-1.\<close>

definition upper_chars :: string where
  "upper_chars = ''ABCDEFGHIJKLMNOPQRSTUVWXYZ'' @
     [CHR 0xC0, CHR 0xC1, CHR 0xC2, CHR 0xC3, CHR 0xC4, CHR 0xC5, CHR 0xC6, CHR 0xC7,
      CHR 0xC8, CHR 0xC9, CHR 0xCA, CHR 0xCB, CHR 0xCC, CHR 0xCD, CHR 0xCE, CHR 0xCF,
      CHR 0xD0, CHR 0xD1, CHR 0xD2, CHR 0xD3, CHR 0xD4, CHR 0xD5, CHR 0xD6,
      CHR 0xD8, CHR 0xD9, CHR 0xDA, CHR 0xDB, CHR 0xDC, CHR 0xDD, CHR 0xDE]"

definition lower_chars :: string where
  "lower_chars = ''abcdefghijklmnopqrstuvwxyz'' @
     [CHR 0xE0, CHR 0xE1, CHR 0xE2, CHR 0xE3, CHR 0xE4, CHR 0xE5, CHR 0xE6, CHR 0xE7,
      CHR 0xE8, CHR 0xE9, CHR 0xEA, CHR 0xEB, CHR 0xEC, CHR 0xED, CHR 0xEE, CHR 0xEF,
      CHR 0xF0, CHR 0xF1, CHR 0xF2, CHR 0xF3, CHR 0xF4, CHR 0xF5, CHR 0xF6,
      CHR 0xF8, CHR 0xF9, CHR 0xFA, CHR 0xFB, CHR 0xFC, CHR 0xFD, CHR 0xFE]"

definition lower_char :: "char \<Rightarrow> char" where
  "lower_char c = (case map_of (zip upper_chars lower_chars) c of Some d \<Rightarrow> d | None \<Rightarrow> c)"

definition lower :: "string \<Rightarrow> string" where
  "lower s = map lower_char s"

text \<open>\<^verbatim>\<open>s.replace(old, new)\<close> for a one-character \<open>old\<close>.\<close>

definition replace :: "char \<Rightarrow> string \<Rightarrow> string \<Rightarrow> string" where
  "replace old new s = concat (map (\<lambda>c. if c = old then new else [c]) s)"

definition startswith_space :: "string \<Rightarrow> bool" where
  "startswith_space line = (case line of [] \<Rightarrow> False | c # _ \<Rightarrow> c = CHR '' '')"

text \<open>\<^verbatim>\<open>os.path.join(a, b)\<close> on POSIX.\<close>

definition path_join :: "string \<Rightarrow> string \<Rightarrow> string" where
  "path_join a b =
     (if b \<noteq> [] \<and> hd b = CHR ''/'' then b
      else if a = [] \<or> last a = CHR ''/'' then a @ b
      else a @ ''/'' @ b)"

section \<open>Control-socket status: \<^verbatim>\<open>ovs_appctl\<close>, \<^verbatim>\<open>cluster_status\<close>, \<^verbatim>\<open>is_cluster_leader\<close>\<close>

text \<open>
  The argument vector \<^verbatim>\<open>ovs_appctl\<close> hands to \<^verbatim>\<open>_run\<close>: the two OVN database
  daemons get the full path of their control socket, any other target is passed as it is.
\<close>

definition ovs_appctl_argv :: "string \<Rightarrow> string option list \<Rightarrow> string option list" where
  "ovs_appctl_argv target args =
     (let target' = (if target \<in> {''ovnnb_db'', ''ovnsb_db''}
                     then path_join OVS_RUNDIR (target @ ''.ctl'') else target)
      in [Some ''ovs-appctl'', Some ''-t'', Some target'] @ args)"

definition ovs_appctl :: "env \<Rightarrow> string \<Rightarrow> string option list \<Rightarrow> py_error + string" where
  "ovs_appctl e target args = run_proc e (ovs_appctl_argv target args)"

definition schema_map :: "(string \<times> string) list" where
  "schema_map = [(''ovnnb_db'', ''OVN_Northbound''), (''ovnsb_db'', ''OVN_Southbound'')]"

text \<open>\<^verbatim>\<open>a or b\<close> on optional strings: \<^verbatim>\<open>None\<close> and the empty string are falsy.\<close>

definition py_or :: "string option \<Rightarrow> string option \<Rightarrow> string option" where
  "py_or a b = (case a of None \<Rightarrow> b | Some s \<Rightarrow> if s = [] then b else Some s)"

text \<open>The arguments \<^verbatim>\<open>cluster_status\<close> passes to \<^verbatim>\<open>ovs_appctl\<close> after the target.\<close>

definition cluster_status_args :: "string \<Rightarrow> string option \<Rightarrow> string option list" where
  "cluster_status_args target schema =
     [Some ''cluster/status'', py_or schema (map_of schema_map target)]"

text \<open>
  A value of the status dictionary: a \<^verbatim>\<open>str\<close>, a \<^verbatim>\<open>list\<close> of \<^verbatim>\<open>str\<close> or a
  \<^verbatim>\<open>tuple\<close> of \<^verbatim>\<open>str\<close>.  The dictionary keeps its keys in insertion order.
\<close>

datatype sval = SStr string | SList "string list" | STuple "string list"

type_synonym status = "(string \<times> sval) list"

text \<open>
  One turn of the loop of \<^verbatim>\<open>cluster_status\<close>, on the dictionary and the cursor
  \<open>k\<close>.  \<^verbatim>\<open>status[k].append(..)\<close> raises AttributeError on a \<^verbatim>\<open>str\<close> or a
  \<^verbatim>\<open>tuple\<close>.
\<close>

definition status_line :: "status \<times> string \<Rightarrow> string \<Rightarrow> py_error + status \<times> string" where
  "status_line s line =
     (case s of (status, k) \<Rightarrow>
        if k \<noteq> [] \<and> startswith_space line then
          (case map_of status k of
             None \<Rightarrow> Inl KeyError
           | Some (SList xs) \<Rightarrow> Inr (AList.update k (SList (xs @ [lstrip line])) status, k)
           | Some _ \<Rightarrow> Inl AttributeError)
        else if CHR '':'' \<in> set line then
          (case split_first CHR '':'' line of (k0, v) \<Rightarrow>
             let k1 = lower k0;
                 k2 = replace CHR '' '' ''_'' k1
             in if v \<noteq> [] then
                  (if k2 \<in> {''cluster_id'', ''server_id''} then
                     (let v1 = replace CHR ''('' [] v;
                          v2 = replace CHR '')'' [] v1
                      in Inr (AList.update k2 (STuple (py_split v2)) status, k2))
                   else Inr (AList.update k2 (SStr (lstrip v)) status, k2))
                else Inr (AList.update k2 (SList []) status, k2))
        else Inr (status, k))"

text \<open>The \<^verbatim>\<open>for\<close> loop over the lines; it stops at the first exception.\<close>

fun status_loop :: "string list \<Rightarrow> status \<times> string \<Rightarrow> py_error + status \<times> string" where
  "status_loop [] s = Inr s"
| "status_loop (line # rest) s =
     (case status_line s line of Inl e \<Rightarrow> Inl e | Inr s' \<Rightarrow> status_loop rest s')"

definition cluster_status :: "env \<Rightarrow> string \<Rightarrow> string option \<Rightarrow> py_error + status" where
  "cluster_status e target schema =
     (case ovs_appctl e target (cluster_status_args target schema) of
        Inl err \<Rightarrow> Inl err
      | Inr out \<Rightarrow>
          (case status_loop (splitlines out) ([], []) of
             Inl err \<Rightarrow> Inl err
           | Inr s \<Rightarrow> Inr (fst s)))"

text \<open>Only \<^verbatim>\<open>subprocess.CalledProcessError\<close> is caught.\<close>

definition is_cluster_leader :: "env \<Rightarrow> string \<Rightarrow> string option \<Rightarrow> py_error + bool" where
  "is_cluster_leader e target schema =
     (case cluster_status e target schema of
        Inl err \<Rightarrow> (if err = CalledProcessError then Inr False else Inl err)
      | Inr status \<Rightarrow> Inr (map_of status ''leader'' = Some (SStr ''self'')))"

section \<open>\<^verbatim>\<open>SimpleOVSDB\<close>\<close>

text \<open>\<^verbatim>\<open>obj[key]\<close> for a string key.\<close>

definition py_getitem :: "json \<Rightarrow> string \<Rightarrow> py_error + json" where
  "py_getitem obj key =
     (case obj of
        JObj kvs \<Rightarrow> (case map_of kvs key of None \<Rightarrow> Inl KeyError | Some v \<Rightarrow> Inr v)
      | _ \<Rightarrow> Inl TypeError)"

text \<open>
  What a \<^verbatim>\<open>for\<close> loop (or \<^verbatim>\<open>zip\<close>) iterates over: the items of a list, the
  characters of a string, the keys of a dictionary; anything else is not iterable.
\<close>

definition py_iter :: "json \<Rightarrow> py_error + json list" where
  "py_iter obj =
     (case obj of
        JList xs \<Rightarrow> Inr xs
      | JStr s \<Rightarrow> Inr (map (\<lambda>c. JStr [c]) s)
      | JObj kvs \<Rightarrow> Inr (map (\<lambda>kv. JStr (fst kv)) kvs)
      | _ \<Rightarrow> Inl TypeError)"

definition hashable :: "json \<Rightarrow> bool" where
  "hashable obj = (case obj of JList _ \<Rightarrow> False | JObj _ \<Rightarrow> False | _ \<Rightarrow> True)"

text \<open>Equality of dictionary keys: \<^verbatim>\<open>True == 1 == 1.0\<close>.\<close>

definition py_num :: "json \<Rightarrow> real option" where
  "py_num obj =
     (case obj of
        JBool b \<Rightarrow> Some (if b then 1 else 0)
      | JInt n \<Rightarrow> Some (of_int n)
      | JFloat r \<Rightarrow> Some r
      | _ \<Rightarrow> None)"

definition py_eq :: "json \<Rightarrow> json \<Rightarrow> bool" where
  "py_eq a b =
     (case py_num a of
        Some x \<Rightarrow> (case py_num b of Some y \<Rightarrow> x = y | None \<Rightarrow> False)
      | None \<Rightarrow> (case py_num b of Some y \<Rightarrow> False | None \<Rightarrow> a = b))"

text \<open>A row: a \<^verbatim>\<open>dict\<close>, its items in insertion order.\<close>

type_synonym row = "(json \<times> json) list"

text \<open>\<^verbatim>\<open>d[k] = v\<close>: an existing key keeps its place and its key object.\<close>

fun dict_set :: "json \<Rightarrow> json \<Rightarrow> row \<Rightarrow> row" where
  "dict_set k v [] = [(k, v)]"
| "dict_set k v (p # ps) = (if py_eq (fst p) k then (fst p, v) # ps else p # dict_set k v ps)"

fun dict_get :: "row \<Rightarrow> json \<Rightarrow> json option" where
  "dict_get [] k = None"
| "dict_get (p # ps) k = (if py_eq (fst p) k then Some (snd p) else dict_get ps k)"

text \<open>\<^verbatim>\<open>dict(pairs)\<close>, started from the dictionary built so far.\<close>

fun py_dict :: "(json \<times> json) list \<Rightarrow> row \<Rightarrow> py_error + row" where
  "py_dict [] d = Inr d"
| "py_dict (p # ps) d =
     (if hashable (fst p) then py_dict ps (dict_set (fst p) (snd p) d) else Inl TypeError)"

text \<open>The command line of \<^verbatim>\<open>_find_tbl\<close>; a falsy condition is left out.\<close>

definition find_tbl_cmd :: "string \<Rightarrow> string \<Rightarrow> string option \<Rightarrow> string option list" where
  "find_tbl_cmd tool tbl condition =
     [Some tool, Some ''-f'', Some ''json'', Some ''find'', Some tbl] @
     (case condition of None \<Rightarrow> [] | Some c \<Rightarrow> if c = [] then [] else [Some c])"

text \<open>What the inner loop appends to \<^verbatim>\<open>values\<close> for one column.\<close>

definition decode_col :: "json \<Rightarrow> py_error + json" where
  "decode_col col =
     (case col of
        JList xs \<Rightarrow> (case xs of _ # y # _ \<Rightarrow> Inr y | _ \<Rightarrow> Inl IndexError)
      | _ \<Rightarrow> Inr col)"

fun decode_cols :: "json list \<Rightarrow> json list \<Rightarrow> py_error + json list" where
  "decode_cols [] values = Inr values"
| "decode_cols (col # cols) values =
     (case decode_col col of Inl e \<Rightarrow> Inl e | Inr v \<Rightarrow> decode_cols cols (values @ [v]))"

text \<open>
  The body of the outer loop: decode the columns of \<open>r\<close>, then zip them with
  \<^verbatim>\<open>data['headings']\<close>, which is looked up anew for every row.
\<close>

definition find_tbl_row :: "json \<Rightarrow> json \<Rightarrow> py_error + row" where
  "find_tbl_row data r =
     (case py_iter r of Inl e \<Rightarrow> Inl e | Inr cols \<Rightarrow>
      case decode_cols cols [] of Inl e \<Rightarrow> Inl e | Inr values \<Rightarrow>
      case py_getitem data ''headings'' of Inl e \<Rightarrow> Inl e | Inr h \<Rightarrow>
      case py_iter h of Inl e \<Rightarrow> Inl e | Inr hs \<Rightarrow>
      py_dict (zip hs values) [])"

fun find_tbl_rows :: "json \<Rightarrow> json list \<Rightarrow> row gen" where
  "find_tbl_rows data [] = Stop"
| "find_tbl_rows data (r # rs) =
     (case find_tbl_row data r of Inl e \<Rightarrow> Raise e | Inr d \<Rightarrow> Yield d (find_tbl_rows data rs))"

text \<open>
  \<^verbatim>\<open>SimpleOVSDB(tool, table)._find_tbl(condition)\<close>.  Nothing runs before the first
  \<^verbatim>\<open>next\<close>; the generator value is what its consumer then sees.
\<close>

definition find_tbl :: "env \<Rightarrow> string \<Rightarrow> string \<Rightarrow> string option \<Rightarrow> row gen" where
  "find_tbl e tool tbl condition =
     (case run_proc e (find_tbl_cmd tool tbl condition) of Inl err \<Rightarrow> Raise err | Inr out \<Rightarrow>
      case loads e out of Inl err \<Rightarrow> Raise err | Inr data \<Rightarrow>
      case py_getitem data ''data'' of Inl err \<Rightarrow> Raise err | Inr d \<Rightarrow>
      case py_iter d of Inl err \<Rightarrow> Raise err | Inr rows \<Rightarrow>
      find_tbl_rows data rows)"

text \<open>\<^verbatim>\<open>__iter__\<close> and \<^verbatim>\<open>find\<close> (here \<open>find_rows\<close>).\<close>

definition iter_tbl :: "env \<Rightarrow> string \<Rightarrow> string \<Rightarrow> row gen" where
  "iter_tbl e tool tbl = find_tbl e tool tbl None"

definition find_rows :: "env \<Rightarrow> string \<Rightarrow> string \<Rightarrow> string \<Rightarrow> row gen" where
  "find_rows e tool tbl condition = find_tbl e tool tbl (Some condition)"

section \<open>The wire format of the query tool\<close>

text \<open>
  The output of a \<^verbatim>\<open>find\<close> with \<^verbatim>\<open>-f json\<close> is an object with the column names
  under \<^verbatim>\<open>headings\<close> and the rows under \<^verbatim>\<open>data\<close>; a cell is a scalar or a
  pair of a type tag and a payload.  These predicates say when a parsed output
  has that shape; the decoder itself does not check it.
\<close>

definition is_str :: "json \<Rightarrow> bool" where
  "is_str v = (case v of JStr _ \<Rightarrow> True | _ \<Rightarrow> False)"

definition wf_value :: "json \<Rightarrow> bool" where
  "wf_value v = (case v of JList xs \<Rightarrow> length xs = 2 | JObj _ \<Rightarrow> False | _ \<Rightarrow> True)"

definition wf_row :: "nat \<Rightarrow> json \<Rightarrow> bool" where
  "wf_row n r =
     (case r of JList cols \<Rightarrow> length cols = n \<and> list_all wf_value cols | _ \<Rightarrow> False)"

text \<open>A double quote, for writing JSON text.\<close>

abbreviation dq :: string where
  "dq \<equiv> [CHR 0x22]"

section \<open>Example inputs\<close>

text \<open>
  A process layer that answers every command with the text \<open>out\<close> and whose JSON
  parser reads that text as \<open>doc\<close>.
\<close>

definition fixed_env :: "string \<Rightarrow> json \<Rightarrow> env" where
  "fixed_env out doc = \<lparr>run = (\<lambda>_. Inr out), loads = (\<lambda>_. Inr doc)\<rparr>"

text \<open>A process layer whose every command fails with \<open>err\<close>.\<close>

definition failing_env :: "py_error \<Rightarrow> env" where
  "failing_env err = \<lparr>run = (\<lambda>_. Inl err), loads = (\<lambda>_. Inl JSONDecodeError)\<rparr>"

text \<open>
  The bridge table with one row:
  \<^verbatim>\<open>{"headings":["name","_uuid"],"data":[["br-int",["uuid","1234"]]]}\<close>
\<close>

definition bridge_out :: string where
  "bridge_out = ''{'' @ dq @ ''headings'' @ dq @ '':['' @ dq @ ''name'' @ dq @ '','' @ dq @
     ''_uuid'' @ dq @ ''],'' @ dq @ ''data'' @ dq @ '':[['' @ dq @ ''br-int'' @ dq @ '',['' @ dq @
     ''uuid'' @ dq @ '','' @ dq @ ''1234'' @ dq @ '']]]}''"

definition bridge_doc :: json where
  "bridge_doc = JObj
     [(''headings'', JList [JStr ''name'', JStr ''_uuid'']),
      (''data'', JList [JList [JStr ''br-int'', JList [JStr ''uuid'', JStr ''1234'']]])]"

text \<open>
  The bridge table with two rows:
  \<^verbatim>\<open>{"headings":["name","_uuid"],"data":[["br-int",["uuid","1234"]],["br-ex",["uuid","5678"]]]}\<close>
\<close>

definition bridges_out :: string where
  "bridges_out = ''{'' @ dq @ ''headings'' @ dq @ '':['' @ dq @ ''name'' @ dq @ '','' @ dq @
     ''_uuid'' @ dq @ ''],'' @ dq @ ''data'' @ dq @ '':[['' @ dq @ ''br-int'' @ dq @ '',['' @ dq @
     ''uuid'' @ dq @ '','' @ dq @ ''1234'' @ dq @ '']],['' @ dq @ ''br-ex'' @ dq @ '',['' @ dq @
     ''uuid'' @ dq @ '','' @ dq @ ''5678'' @ dq @ '']]]}''"

definition bridges_doc :: json where
  "bridges_doc = JObj
     [(''headings'', JList [JStr ''name'', JStr ''_uuid'']),
      (''data'', JList [JList [JStr ''br-int'', JList [JStr ''uuid'', JStr ''1234'']],
                        JList [JStr ''br-ex'', JList [JStr ''uuid'', JStr ''5678'']]])]"

text \<open>
  Two rows, the second with an empty list in its cell:
  \<^verbatim>\<open>{"headings":["name"],"data":[["a"],[[]]]}\<close>
\<close>

definition short_cell_out :: string where
  "short_cell_out = ''{'' @ dq @ ''headings'' @ dq @ '':['' @ dq @ ''name'' @ dq @ ''],'' @ dq @
     ''data'' @ dq @ '':[['' @ dq @ ''a'' @ dq @ ''],[[]]]}''"

definition short_cell_doc :: json where
  "short_cell_doc = JObj
     [(''headings'', JList [JStr ''name'']),
      (''data'', JList [JList [JStr ''a''], JList [JList []]])]"

text \<open>A line feed.\<close>

abbreviation lf :: string where
  "lf \<equiv> [CHR 0x0A]"

text \<open>
  A cluster status report of a member that is the leader:
  \<^verbatim>\<open>Status: cluster member\<close>, \<^verbatim>\<open>Cluster id: 9f8e (9f8e)\<close>, \<^verbatim>\<open>Leader: self\<close>,
  \<^verbatim>\<open>Servers:\<close> and the two indented lines \<^verbatim>\<open>srv-1\<close> and \<^verbatim>\<open>srv-2\<close>.
\<close>

definition member_report :: string where
  "member_report = ''Status: cluster member'' @ lf @ ''Cluster id: 9f8e (9f8e)'' @ lf @
     ''Leader: self'' @ lf @ ''Servers:'' @ lf @ ''    srv-1'' @ lf @ ''    srv-2'' @ lf"

section \<open>Dictionaries with string keys\<close>

lemma py_eq_str_left: "is_str a \<Longrightarrow> py_eq a b \<longleftrightarrow> a = b"
  by (cases a; cases b) (simp_all add: is_str_def py_eq_def py_num_def)

lemma py_eq_str_right: "is_str b \<Longrightarrow> py_eq a b \<longleftrightarrow> a = b"
  by (cases a; cases b) (simp_all add: is_str_def py_eq_def py_num_def)

lemma is_str_hashable: "is_str k \<Longrightarrow> hashable k"
  by (cases k) (simp_all add: is_str_def hashable_def)

lemma keys_dict_set: "is_str k \<Longrightarrow> fst ` set (dict_set k v d) = insert k (fst ` set d)"
  by (induction d) (auto simp: py_eq_str_right)

lemma dict_get_dict_set:
  "is_str k \<Longrightarrow> is_str k' \<Longrightarrow>
   dict_get (dict_set k v d) k' = (if k' = k then Some v else dict_get d k')"
  by (induction d) (auto simp: py_eq_str_right)

lemma py_dict_keys:
  "list_all is_str hs \<Longrightarrow> length vs = length hs \<Longrightarrow>
   \<exists>d'. py_dict (zip hs vs) d = Inr d' \<and> fst ` set d' = fst ` set d \<union> set hs"
proof (induction hs arbitrary: vs d)
  case Nil
  then show ?case by simp
next
  case (Cons h hs)
  then obtain v vs' where vs: "vs = v # vs'" by (cases vs) auto
  from Cons.prems have h: "is_str h" and hs: "list_all is_str hs" by simp_all
  from Cons.IH [OF hs, of vs' "dict_set h v d"] Cons.prems vs
  obtain d' where "py_dict (zip hs vs') (dict_set h v d) = Inr d'"
    and "fst ` set d' = fst ` set (dict_set h v d) \<union> set hs" by auto
  with h vs show ?case by (auto simp: is_str_hashable keys_dict_set)
qed

lemma py_dict_get_other:
  "list_all is_str hs \<Longrightarrow> is_str k \<Longrightarrow> k \<notin> set hs \<Longrightarrow> py_dict (zip hs vs) d = Inr d' \<Longrightarrow>
   dict_get d' k = dict_get d k"
proof (induction hs arbitrary: vs d)
  case Nil
  then show ?case by simp
next
  case (Cons h hs)
  show ?case
  proof (cases vs)
    case Nil
    with Cons.prems show ?thesis by simp
  next
    case (Cons v vs')
    with Cons.prems Cons.IH [of vs' "dict_set h v d"] show ?thesis
      by (auto simp: is_str_hashable dict_get_dict_set split: if_splits)
  qed
qed

lemma py_dict_get_last:
  "list_all is_str hs \<Longrightarrow> length vs = length hs \<Longrightarrow> j < length hs \<Longrightarrow>
   hs ! j \<notin> set (drop (Suc j) hs) \<Longrightarrow> py_dict (zip hs vs) d = Inr d' \<Longrightarrow>
   dict_get d' (hs ! j) = Some (vs ! j)"
proof (induction hs arbitrary: vs d j)
  case Nil
  then show ?case by simp
next
  case (Cons h hs)
  then obtain v vs' where vs: "vs = v # vs'" by (cases vs) auto
  from Cons.prems have h: "is_str h" and hs: "list_all is_str hs" by simp_all
  from Cons.prems vs h have d': "py_dict (zip hs vs') (dict_set h v d) = Inr d'"
    by (simp add: is_str_hashable)
  show ?case
  proof (cases j)
    case 0
    with Cons.prems have "h \<notin> set hs" by simp
    from py_dict_get_other [OF hs h this d'] h 0 vs show ?thesis
      by (simp add: dict_get_dict_set)
  next
    case (Suc j')
    with Cons.prems vs Cons.IH [OF hs _ _ _ d', of j'] show ?thesis by simp
  qed
qed

lemma decode_col_wf: "wf_value c \<Longrightarrow> \<exists>v. decode_col c = Inr v"
  by (cases c) (auto simp: wf_value_def decode_col_def length_Suc_conv numeral_2_eq_2 split: list.splits)

lemma decode_cols_ok:
  "list_all wf_value cols \<Longrightarrow>
   \<exists>vs. decode_cols cols acc = Inr (acc @ vs) \<and> length vs = length cols \<and>
        (\<forall>j < length cols. decode_col (cols ! j) = Inr (vs ! j))"
proof (induction cols arbitrary: acc)
  case Nil
  then show ?case by simp
next
  case (Cons c cols)
  from Cons.prems obtain v where v: "decode_col c = Inr v"
    using decode_col_wf by auto
  from Cons.prems Cons.IH [of "acc @ [v]"] obtain vs where
    vs: "decode_cols cols (acc @ [v]) = Inr (acc @ [v] @ vs)" "length vs = length cols"
      "\<forall>j < length cols. decode_col (cols ! j) = Inr (vs ! j)" by auto
  show ?case
  proof (intro exI [of _ "v # vs"] conjI allI impI)
    show "decode_cols (c # cols) acc = Inr (acc @ v # vs)" using v vs by simp
    show "length (v # vs) = length (c # cols)" using vs by simp
    fix j assume "j < length (c # cols)"
    then show "decode_col ((c # cols) ! j) = Inr ((v # vs) ! j)"
      using v vs by (cases j) auto
  qed
qed

lemma find_tbl_rows_all:
  "\<forall>r \<in> set rows. \<exists>d. find_tbl_row data r = Inr d \<Longrightarrow>
   find_tbl_rows data (rows @ rest) =
   foldr Yield (map (\<lambda>r. projr (find_tbl_row data r)) rows) (find_tbl_rows data rest)"
  by (induction rows) auto

lemma py_list_complete: "py_list (foldr Yield rs Stop) = Inr rs"
  by (induction rs) auto

lemma find_tbl_row_wf:
  assumes h: "py_getitem data ''headings'' = Inr (JList hs)"
    and hs: "list_all is_str hs"
    and r: "wf_row (length hs) r"
  shows "\<exists>cols d. r = JList cols \<and> find_tbl_row data r = Inr d \<and> fst ` set d = set hs \<and>
           (\<forall>j < length hs. hs ! j \<notin> set (drop (Suc j) hs) \<longrightarrow>
              map_option Inr (dict_get d (hs ! j)) = Some (decode_col (cols ! j)))"
proof -
  from r obtain cols where cols: "r = JList cols" "length cols = length hs"
    "list_all wf_value cols"
    by (cases r) (auto simp: wf_row_def)
  from decode_cols_ok [OF cols(3), of "[]"] obtain vs where
    vs: "decode_cols cols [] = Inr vs" "length vs = length cols"
      "\<forall>j < length cols. decode_col (cols ! j) = Inr (vs ! j)" by auto
  from py_dict_keys [OF hs, of vs "[]"] vs(2) cols(2) obtain d where
    d: "py_dict (zip hs vs) [] = Inr d" "fst ` set d = set hs" by auto
  have row: "find_tbl_row data r = Inr d"
    using cols(1) vs(1) h d(1) by (simp add: find_tbl_row_def py_iter_def)
  have "map_option Inr (dict_get d (hs ! j)) = Some (decode_col (cols ! j))"
    if "j < length hs" "hs ! j \<notin> set (drop (Suc j) hs)" for j
    using py_dict_get_last [OF hs _ that d(1)] vs(2,3) cols(2) that(1) by simp
  with cols(1) row d(2) show ?thesis by blast
qed

section \<open>Rows of a well-formed output\<close>

text \<open>
  The generator behind \<^verbatim>\<open>__iter__\<close> (and so behind \<^verbatim>\<open>list\<close> of the table) when
  there is no condition, and behind \<^verbatim>\<open>find\<close> when there is one.
\<close>

lemma table_generator:
  "(case condition of None \<Rightarrow> iter_tbl e tool tbl | Some c \<Rightarrow> find_rows e tool tbl c) =
     find_tbl e tool tbl condition"
  by (cases condition) (simp_all add: iter_tbl_def find_rows_def)

text \<open>
  Claim C1.  When the tool prints a well-formed output, with string headings and every
  row as long as the headings, iterating the table, through \<^verbatim>\<open>__iter__\<close> or through
  \<^verbatim>\<open>find\<close> with any condition, yields one dictionary per row of \<^verbatim>\<open>data\<close>
  and then stops; \<^verbatim>\<open>list\<close> of it is that sequence.  The keys of every dictionary are
  the headings, and the value under a heading is the decoded cell at the heading's
  position (at its last position, should a heading occur twice).  With no rows the
  generator stops at once.
\<close>

theorem find_tbl_well_formed:
  assumes run: "run e (find_tbl_cmd tool tbl condition) = Inr out"
    and loads: "loads e out = Inr (JObj kvs)"
    and hd: "map_of kvs ''headings'' = Some (JList hs)"
    and dt: "map_of kvs ''data'' = Some (JList rows)"
    and hs: "list_all is_str hs"
    and rows: "list_all (wf_row (length hs)) rows"
    and g: "g = (case condition of None \<Rightarrow> iter_tbl e tool tbl
                 | Some c \<Rightarrow> find_rows e tool tbl c)"
  shows "\<exists>rs. g = foldr Yield rs Stop \<and>
           find_tbl e tool tbl condition = foldr Yield rs Stop \<and>
           py_list g = Inr rs \<and>
           length rs = length rows \<and>
           (rows = [] \<longrightarrow> g = Stop) \<and>
           (\<forall>i < length rows. fst ` set (rs ! i) = set hs \<and>
              (\<forall>j < length hs. hs ! j \<notin> set (drop (Suc j) hs) \<longrightarrow>
                 (\<exists>cols. rows ! i = JList cols \<and>
                    map_option Inr (dict_get (rs ! i) (hs ! j)) = Some (decode_col (cols ! j)))))"
proof -
  let ?data = "JObj kvs"
  let ?rs = "map (\<lambda>r. projr (find_tbl_row ?data r)) rows"
  have g': "g = find_tbl e tool tbl condition"
    unfolding g by (rule table_generator)
  have h: "py_getitem ?data ''headings'' = Inr (JList hs)"
    using hd by (simp add: py_getitem_def)
  have each: "\<exists>cols d. r = JList cols \<and> find_tbl_row ?data r = Inr d \<and> fst ` set d = set hs \<and>
           (\<forall>j < length hs. hs ! j \<notin> set (drop (Suc j) hs) \<longrightarrow>
              map_option Inr (dict_get d (hs ! j)) = Some (decode_col (cols ! j)))"
    if "r \<in> set rows" for r
    using find_tbl_row_wf [OF h hs] rows that by (simp add: list_all_iff)
  then have "\<forall>r \<in> set rows. \<exists>d. find_tbl_row ?data r = Inr d" by blast
  from find_tbl_rows_all [OF this, of "[]"]
  have "find_tbl e tool tbl condition = foldr Yield ?rs Stop"
    using run loads dt by (simp add: find_tbl_def run_proc_def py_getitem_def py_iter_def)
  with g' have gen: "g = foldr Yield ?rs Stop" by simp
  have props: "fst ` set (?rs ! i) = set hs \<and>
      (\<forall>j < length hs. hs ! j \<notin> set (drop (Suc j) hs) \<longrightarrow>
         (\<exists>cols. rows ! i = JList cols \<and>
            map_option Inr (dict_get (?rs ! i) (hs ! j)) = Some (decode_col (cols ! j))))"
    if "i < length rows" for i
  proof -
    from that have "rows ! i \<in> set rows" by simp
    from each [OF this] obtain cols d where
      "rows ! i = JList cols" "find_tbl_row ?data (rows ! i) = Inr d" "fst ` set d = set hs"
      "\<forall>j < length hs. hs ! j \<notin> set (drop (Suc j) hs) \<longrightarrow>
              map_option Inr (dict_get d (hs ! j)) = Some (decode_col (cols ! j))" by blast
    with that show ?thesis by simp
  qed
  show ?thesis
  proof (intro exI [of _ ?rs] conjI)
    show "g = foldr Yield ?rs Stop" by (rule gen)
    show "find_tbl e tool tbl condition = foldr Yield ?rs Stop"
      using gen g' by simp
    show "py_list g = Inr ?rs"
      by (simp only: gen py_list_complete)
    show "length ?rs = length rows" by simp
    show "rows = [] \<longrightarrow> g = Stop" using gen by simp
    show "\<forall>i < length rows. fst ` set (?rs ! i) = set hs \<and>
      (\<forall>j < length hs. hs ! j \<notin> set (drop (Suc j) hs) \<longrightarrow>
         (\<exists>cols. rows ! i = JList cols \<and>
            map_option Inr (dict_get (?rs ! i) (hs ! j)) = Some (decode_col (cols ! j))))"
      using props by blast
  qed
qed

theorem find_tbl_well_formed_witness:
  "list_all is_str [JStr ''name'', JStr ''_uuid''] \<and>
   list_all (wf_row 2) [JList [JStr ''br-int'', JList [JStr ''uuid'', JStr ''1234'']],
                        JList [JStr ''br-ex'', JList [JStr ''uuid'', JStr ''5678'']]] \<and>
   (\<exists>rs. py_list (iter_tbl (fixed_env bridges_out bridges_doc) ''ovs-vsctl'' ''bridge'') = Inr rs \<and>
      length rs = 2 \<and> fst ` set (rs ! 0) = {JStr ''name'', JStr ''_uuid''} \<and>
      fst ` set (rs ! 1) = {JStr ''name'', JStr ''_uuid''} \<and>
      dict_get (rs ! 1) (JStr ''name'') = Some (JStr ''br-ex'') \<and>
      dict_get (rs ! 1) (JStr ''_uuid'') = Some (JStr ''5678'')) \<and>
   (\<exists>rs. py_list (find_rows (fixed_env bridge_out bridge_doc) ''ovs-vsctl'' ''bridge''
             ''name=br-int'') = Inr rs \<and>
      length rs = 1 \<and> fst ` set (rs ! 0) = {JStr ''name'', JStr ''_uuid''} \<and>
      dict_get (rs ! 0) (JStr ''_uuid'') = Some (JStr ''1234''))"
proof -
  let ?hs = "[JStr ''name'', JStr ''_uuid'']"
  have hs: "list_all is_str ?hs" by (simp add: is_str_def)
  have j1: "?hs ! 1 \<notin> set (drop (Suc 1) ?hs)" by simp
  have j0: "?hs ! 0 \<notin> set (drop (Suc 0) ?hs)" by simp
  have two: "\<exists>rs. py_list (iter_tbl (fixed_env bridges_out bridges_doc) ''ovs-vsctl'' ''bridge'') = Inr rs \<and>
      length rs = 2 \<and> fst ` set (rs ! 0) = {JStr ''name'', JStr ''_uuid''} \<and>
      fst ` set (rs ! 1) = {JStr ''name'', JStr ''_uuid''} \<and>
      dict_get (rs ! 1) (JStr ''name'') = Some (JStr ''br-ex'') \<and>
      dict_get (rs ! 1) (JStr ''_uuid'') = Some (JStr ''5678'')"
  proof -
    let ?e = "fixed_env bridges_out bridges_doc"
    let ?rows = "[JList [JStr ''br-int'', JList [JStr ''uuid'', JStr ''1234'']],
                  JList [JStr ''br-ex'', JList [JStr ''uuid'', JStr ''5678'']]]"
    have run: "run ?e (find_tbl_cmd ''ovs-vsctl'' ''bridge'' None) = Inr bridges_out"
      by (simp add: fixed_env_def)
    have loads: "loads ?e bridges_out =
        Inr (JObj [(''headings'', JList ?hs), (''data'', JList ?rows)])"
      by (simp add: fixed_env_def bridges_doc_def)
    have rows: "list_all (wf_row (length ?hs)) ?rows" by (simp add: wf_row_def wf_value_def)
    have g: "iter_tbl ?e ''ovs-vsctl'' ''bridge'' =
        (case None of None \<Rightarrow> iter_tbl ?e ''ovs-vsctl'' ''bridge''
         | Some c \<Rightarrow> find_rows ?e ''ovs-vsctl'' ''bridge'' c)" by simp
    from find_tbl_well_formed [OF run loads _ _ hs rows g]
    obtain rs where rs: "py_list (iter_tbl ?e ''ovs-vsctl'' ''bridge'') = Inr rs"
      "length rs = length ?rows"
      "\<forall>i < length ?rows. fst ` set (rs ! i) = set ?hs \<and>
         (\<forall>j < length ?hs. ?hs ! j \<notin> set (drop (Suc j) ?hs) \<longrightarrow>
            (\<exists>cols. ?rows ! i = JList cols \<and>
               map_option Inr (dict_get (rs ! i) (?hs ! j)) = Some (decode_col (cols ! j))))"
      by auto
    have i0: "0 < length ?rows" and i1: "1 < length ?rows" by simp_all
    note r0 = rs(3) [rule_format, OF i0]
    note r1 = rs(3) [rule_format, OF i1]
    from r0 have k0: "fst ` set (rs ! 0) = set ?hs" by (rule conjunct1)
    from r1 have k1: "fst ` set (rs ! 1) = set ?hs" by (rule conjunct1)
    have "\<exists>cols. ?rows ! 1 = JList cols \<and>
        map_option Inr (dict_get (rs ! 1) (?hs ! 0)) = Some (decode_col (cols ! 0))"
      by (rule r1 [THEN conjunct2, rule_format, of 0]) simp_all
    then have v0: "dict_get (rs ! 1) (JStr ''name'') = Some (JStr ''br-ex'')"
      by (auto simp: decode_col_def)
    have "\<exists>cols. ?rows ! 1 = JList cols \<and>
        map_option Inr (dict_get (rs ! 1) (?hs ! 1)) = Some (decode_col (cols ! 1))"
      by (rule r1 [THEN conjunct2, rule_format, of 1]) simp_all
    then have v1: "dict_get (rs ! 1) (JStr ''_uuid'') = Some (JStr ''5678'')"
      by (auto simp: decode_col_def)
    from rs(1,2) k0 k1 v0 v1 show ?thesis by auto
  qed
  have one: "\<exists>rs. py_list (find_rows (fixed_env bridge_out bridge_doc) ''ovs-vsctl'' ''bridge''
             ''name=br-int'') = Inr rs \<and>
      length rs = 1 \<and> fst ` set (rs ! 0) = {JStr ''name'', JStr ''_uuid''} \<and>
      dict_get (rs ! 0) (JStr ''_uuid'') = Some (JStr ''1234'')"
  proof -
    let ?e = "fixed_env bridge_out bridge_doc"
    let ?rows = "[JList [JStr ''br-int'', JList [JStr ''uuid'', JStr ''1234'']]]"
    have run: "run ?e (find_tbl_cmd ''ovs-vsctl'' ''bridge'' (Some ''name=br-int'')) = Inr bridge_out"
      by (simp add: fixed_env_def)
    have loads: "loads ?e bridge_out =
        Inr (JObj [(''headings'', JList ?hs), (''data'', JList ?rows)])"
      by (simp add: fixed_env_def bridge_doc_def)
    have rows: "list_all (wf_row (length ?hs)) ?rows" by (simp add: wf_row_def wf_value_def)
    have g: "find_rows ?e ''ovs-vsctl'' ''bridge'' ''name=br-int'' =
        (case Some ''name=br-int'' of None \<Rightarrow> iter_tbl ?e ''ovs-vsctl'' ''bridge''
         | Some c \<Rightarrow> find_rows ?e ''ovs-vsctl'' ''bridge'' c)" by simp
    from find_tbl_well_formed [OF run loads _ _ hs rows g]
    obtain rs where rs: "py_list (find_rows ?e ''ovs-vsctl'' ''bridge'' ''name=br-int'') = Inr rs"
      "length rs = length ?rows"
      "\<forall>i < length ?rows. fst ` set (rs ! i) = set ?hs \<and>
         (\<forall>j < length ?hs. ?hs ! j \<notin> set (drop (Suc j) ?hs) \<longrightarrow>
            (\<exists>cols. ?rows ! i = JList cols \<and>
               map_option Inr (dict_get (rs ! i) (?hs ! j)) = Some (decode_col (cols ! j))))"
      by auto
    have i0: "0 < length ?rows" by simp
    note r0 = rs(3) [rule_format, OF i0]
    from r0 have k: "fst ` set (rs ! 0) = set ?hs" by (rule conjunct1)
    have "\<exists>cols. ?rows ! 0 = JList cols \<and>
        map_option Inr (dict_get (rs ! 0) (?hs ! 1)) = Some (decode_col (cols ! 1))"
      by (rule r0 [THEN conjunct2, rule_format, of 1]) simp_all
    then have v: "dict_get (rs ! 0) (JStr ''_uuid'') = Some (JStr ''1234'')"
      by (auto simp: decode_col_def)
    from rs(1,2) k v show ?thesis by auto
  qed
  have rows2: "list_all (wf_row 2) [JList [JStr ''br-int'', JList [JStr ''uuid'', JStr ''1234'']],
                        JList [JStr ''br-ex'', JList [JStr ''uuid'', JStr ''5678'']]]"
    by (simp add: wf_row_def wf_value_def)
  from hs rows2 two one show ?thesis by blast
qed

section \<open>Decoding one cell\<close>

text \<open>
  Claim C2.  A cell that is a pair of a tag and a payload decodes to the payload,
  whatever the payload is: a list inside it stays a list.  A scalar cell (null, a
  boolean, a number or a string) decodes to itself.  The one-row bridge table decodes
  to the single row with \<open>name\<close> \<open>br-int\<close> and \<open>_uuid\<close> \<open>1234\<close>.
\<close>

theorem decode_col_tagged_or_scalar:
  "decode_col (JList [tag, payload]) = Inr payload \<and>
   decode_col JNull = Inr JNull \<and>
   decode_col (JBool b) = Inr (JBool b) \<and>
   decode_col (JInt n) = Inr (JInt n) \<and>
   decode_col (JFloat x) = Inr (JFloat x) \<and>
   decode_col (JStr s) = Inr (JStr s) \<and>
   (run e (find_tbl_cmd tool tbl condition) = Inr out \<and> loads e out = Inr bridge_doc \<longrightarrow>
      find_tbl e tool tbl condition =
        Yield [(JStr ''name'', JStr ''br-int''), (JStr ''_uuid'', JStr ''1234'')] Stop)"
  by (simp add: decode_col_def find_tbl_def run_proc_def bridge_doc_def py_getitem_def
      py_iter_def find_tbl_row_def hashable_def py_eq_def py_num_def)

theorem decode_col_tagged_or_scalar_witness:
  "run (fixed_env bridge_out bridge_doc) (find_tbl_cmd ''ovs-vsctl'' ''bridge'' (Some ''name=br-int''))
     = Inr bridge_out \<and>
   loads (fixed_env bridge_out bridge_doc) bridge_out = Inr bridge_doc \<and>
   find_rows (fixed_env bridge_out bridge_doc) ''ovs-vsctl'' ''bridge'' ''name=br-int'' =
     Yield [(JStr ''name'', JStr ''br-int''), (JStr ''_uuid'', JStr ''1234'')] Stop"
  using decode_col_tagged_or_scalar
    [of _ _ _ _ _ _ "fixed_env bridge_out bridge_doc" "''ovs-vsctl''" "''bridge''"
      "Some ''name=br-int''" bridge_out]
  by (simp add: fixed_env_def find_rows_def)

section \<open>Lists that are not pairs\<close>








section \<open>Where the generator can fail\<close>

text \<open>
  Against claim C3 as it is written ("fail before yielding any row").  The rows are
  decoded one at a time, as the consumer asks for them.  On the output
  \<^verbatim>\<open>{"headings":["name"],"data":[["a"],[[]]]}\<close> the first row is yielded, and the
  second raises IndexError.
\<close>

theorem find_tbl_partial_counterexample:
  "find_tbl (fixed_env short_cell_out short_cell_doc) ''ovs-vsctl'' ''port'' None =
     Yield [(JStr ''name'', JStr ''a'')] (Raise IndexError)"
  by (simp add: find_tbl_def run_proc_def fixed_env_def short_cell_doc_def py_getitem_def
      py_iter_def find_tbl_row_def decode_col_def hashable_def)

lemma find_tbl_rows_decoded:
  "map (find_tbl_row data) rows = map Inr ds \<Longrightarrow>
   find_tbl_rows data (rows @ rest) = foldr Yield ds (find_tbl_rows data rest)"
proof (induction rows arbitrary: ds)
  case Nil
  then show ?case by simp
next
  case (Cons r rows)
  then obtain d ds' where "ds = d # ds'" "find_tbl_row data r = Inr d"
    "map (find_tbl_row data) rows = map Inr ds'"
    by (cases ds) auto
  with Cons.IH [of ds'] show ?case by simp
qed

lemma rows_decode_or_first_failure:
  "(\<exists>ds. map (find_tbl_row data) rows = map Inr ds) \<or>
   (\<exists>pre r post ds err. rows = pre @ r # post \<and>
      map (find_tbl_row data) pre = map Inr ds \<and> find_tbl_row data r = Inl err)"
proof (induction rows)
  case Nil
  then show ?case by simp
next
  case (Cons x rows)
  show ?case
  proof (cases "find_tbl_row data x")
    case (Inl err)
    then have "x # rows = [] @ x # rows \<and> map (find_tbl_row data) [] = map Inr [] \<and>
        find_tbl_row data x = Inl err" by simp
    then show ?thesis by blast
  next
    case (Inr d)
    from Cons.IH show ?thesis
    proof
      assume "\<exists>ds. map (find_tbl_row data) rows = map Inr ds"
      then obtain ds where "map (find_tbl_row data) rows = map Inr ds" ..
      with Inr have "map (find_tbl_row data) (x # rows) = map Inr (d # ds)" by simp
      then show ?thesis by blast
    next
      assume "\<exists>pre r post ds err. rows = pre @ r # post \<and>
        map (find_tbl_row data) pre = map Inr ds \<and> find_tbl_row data r = Inl err"
      then obtain pre r post ds err where "rows = pre @ r # post"
        "map (find_tbl_row data) pre = map Inr ds" "find_tbl_row data r = Inl err" by blast
      with Inr have "x # rows = (x # pre) @ r # post \<and>
        map (find_tbl_row data) (x # pre) = map Inr (d # ds) \<and> find_tbl_row data r = Inl err"
        by simp
      then show ?thesis by blast
    qed
  qed
qed

text \<open>
  Claim C3, as the code has it.  Take the generator behind \<^verbatim>\<open>__iter__\<close> or behind
  \<^verbatim>\<open>find\<close>.  When the command fails, when its output is not JSON, or when
  \<^verbatim>\<open>data\<close> cannot be read or iterated, the generator raises before any row.
  Otherwise, when every row decodes, it yields exactly the decoded rows, in order, and
  stops; and when \<open>r\<close> is the first row that does not decode, it yields exactly the
  decoded rows before \<open>r\<close> and then raises the exception of \<open>r\<close>.  One of these cases
  always holds.
\<close>

theorem find_tbl_partial:
  assumes g: "g = (case condition of None \<Rightarrow> iter_tbl e tool tbl
                   | Some c \<Rightarrow> find_rows e tool tbl c)"
  shows
  "(run e (find_tbl_cmd tool tbl condition) = Inl err \<longrightarrow> g = Raise err) \<and>
   (run e (find_tbl_cmd tool tbl condition) = Inr out \<and> loads e out = Inl err \<longrightarrow>
      g = Raise err) \<and>
   (run e (find_tbl_cmd tool tbl condition) = Inr out \<and> loads e out = Inr doc \<and>
    py_getitem doc ''data'' = Inl err \<longrightarrow> g = Raise err) \<and>
   (run e (find_tbl_cmd tool tbl condition) = Inr out \<and> loads e out = Inr doc \<and>
    py_getitem doc ''data'' = Inr d \<and> py_iter d = Inl err \<longrightarrow> g = Raise err) \<and>
   (run e (find_tbl_cmd tool tbl condition) = Inr out \<and> loads e out = Inr doc \<and>
    py_getitem doc ''data'' = Inr d \<and> py_iter d = Inr rows \<and>
    map (find_tbl_row doc) rows = map Inr ds \<longrightarrow> g = foldr Yield ds Stop) \<and>
   (run e (find_tbl_cmd tool tbl condition) = Inr out \<and> loads e out = Inr doc \<and>
    py_getitem doc ''data'' = Inr d \<and> py_iter d = Inr (pre @ r # post) \<and>
    map (find_tbl_row doc) pre = map Inr ds \<and> find_tbl_row doc r = Inl err \<longrightarrow>
      g = foldr Yield ds (Raise err)) \<and>
   ((\<exists>err'. g = Raise err') \<or>
    (\<exists>out' doc' d' rows' ds'.
       run e (find_tbl_cmd tool tbl condition) = Inr out' \<and> loads e out' = Inr doc' \<and>
       py_getitem doc' ''data'' = Inr d' \<and> py_iter d' = Inr rows' \<and>
       map (find_tbl_row doc') rows' = map Inr ds' \<and> g = foldr Yield ds' Stop) \<or>
    (\<exists>out' doc' d' pre' r' post' ds' err'.
       run e (find_tbl_cmd tool tbl condition) = Inr out' \<and> loads e out' = Inr doc' \<and>
       py_getitem doc' ''data'' = Inr d' \<and> py_iter d' = Inr (pre' @ r' # post') \<and>
       pre' \<noteq> [] \<and> map (find_tbl_row doc') pre' = map Inr ds' \<and>
       find_tbl_row doc' r' = Inl err' \<and> g = foldr Yield ds' (Raise err')))"
proof -
  let ?cmd = "find_tbl_cmd tool tbl condition"
  have g': "g = find_tbl e tool tbl condition"
    unfolding g by (rule table_generator)
  have rows_gen: "g = find_tbl_rows doc rows"
    if "run e ?cmd = Inr out" "loads e out = Inr doc" "py_getitem doc ''data'' = Inr d"
      "py_iter d = Inr rows" for out doc d rows
    using that by (simp add: g' find_tbl_def run_proc_def)
  have c1: "run e ?cmd = Inl err \<longrightarrow> g = Raise err"
    by (simp add: g' find_tbl_def run_proc_def)
  have c2: "run e ?cmd = Inr out \<and> loads e out = Inl err \<longrightarrow> g = Raise err"
    by (simp add: g' find_tbl_def run_proc_def)
  have c3: "run e ?cmd = Inr out \<and> loads e out = Inr doc \<and>
      py_getitem doc ''data'' = Inl err \<longrightarrow> g = Raise err"
    by (simp add: g' find_tbl_def run_proc_def)
  have c4: "run e ?cmd = Inr out \<and> loads e out = Inr doc \<and>
      py_getitem doc ''data'' = Inr d \<and> py_iter d = Inl err \<longrightarrow> g = Raise err"
    by (simp add: g' find_tbl_def run_proc_def)
  have all: "g = foldr Yield ds Stop"
    if "run e ?cmd = Inr out" "loads e out = Inr doc" "py_getitem doc ''data'' = Inr d"
      "py_iter d = Inr rows" "map (find_tbl_row doc) rows = map Inr ds" for out doc d rows ds
    using rows_gen [OF that(1-4)] find_tbl_rows_decoded [OF that(5), of "[]"] by simp
  have first: "g = foldr Yield ds (Raise err)"
    if "run e ?cmd = Inr out" "loads e out = Inr doc" "py_getitem doc ''data'' = Inr d"
      "py_iter d = Inr (pre @ r # post)" "map (find_tbl_row doc) pre = map Inr ds"
      "find_tbl_row doc r = Inl err" for out doc d pre r post ds err
    using rows_gen [OF that(1-4)] find_tbl_rows_decoded [OF that(5), of "r # post"] that(6)
    by simp
  have c5: "run e ?cmd = Inr out \<and> loads e out = Inr doc \<and>
      py_getitem doc ''data'' = Inr d \<and> py_iter d = Inr rows \<and>
      map (find_tbl_row doc) rows = map Inr ds \<longrightarrow> g = foldr Yield ds Stop"
    using all by blast
  have c6: "run e ?cmd = Inr out \<and> loads e out = Inr doc \<and>
      py_getitem doc ''data'' = Inr d \<and> py_iter d = Inr (pre @ r # post) \<and>
      map (find_tbl_row doc) pre = map Inr ds \<and> find_tbl_row doc r = Inl err \<longrightarrow>
        g = foldr Yield ds (Raise err)"
    using first by blast
  have c7: "(\<exists>err'. g = Raise err') \<or>
    (\<exists>out' doc' d' rows' ds'.
       run e ?cmd = Inr out' \<and> loads e out' = Inr doc' \<and>
       py_getitem doc' ''data'' = Inr d' \<and> py_iter d' = Inr rows' \<and>
       map (find_tbl_row doc') rows' = map Inr ds' \<and> g = foldr Yield ds' Stop) \<or>
    (\<exists>out' doc' d' pre' r' post' ds' err'.
       run e ?cmd = Inr out' \<and> loads e out' = Inr doc' \<and>
       py_getitem doc' ''data'' = Inr d' \<and> py_iter d' = Inr (pre' @ r' # post') \<and>
       pre' \<noteq> [] \<and> map (find_tbl_row doc') pre' = map Inr ds' \<and>
       find_tbl_row doc' r' = Inl err' \<and> g = foldr Yield ds' (Raise err'))"
  proof (cases "run e ?cmd")
    case (Inl x)
    then show ?thesis by (simp add: g' find_tbl_def run_proc_def)
  next
    case out: (Inr out')
    show ?thesis
    proof (cases "loads e out'")
      case (Inl x)
      with out show ?thesis by (simp add: g' find_tbl_def run_proc_def)
    next
      case doc: (Inr doc')
      show ?thesis
      proof (cases "py_getitem doc' ''data''")
        case (Inl x)
        with out doc show ?thesis by (simp add: g' find_tbl_def run_proc_def)
      next
        case d: (Inr d')
        show ?thesis
        proof (cases "py_iter d'")
          case (Inl x)
          with out doc d show ?thesis by (simp add: g' find_tbl_def run_proc_def)
        next
          case rows: (Inr rows')
          from rows_decode_or_first_failure [of doc' rows'] show ?thesis
          proof
            assume "\<exists>ds. map (find_tbl_row doc') rows' = map Inr ds"
            then obtain ds' where ds: "map (find_tbl_row doc') rows' = map Inr ds'" ..
            from all [OF out doc d rows ds] out doc d rows ds show ?thesis by blast
          next
            assume "\<exists>pre r post ds err. rows' = pre @ r # post \<and>
              map (find_tbl_row doc') pre = map Inr ds \<and> find_tbl_row doc' r = Inl err"
            then obtain pre' r' post' ds' err' where s: "rows' = pre' @ r' # post'"
              and p: "map (find_tbl_row doc') pre' = map Inr ds'"
              and f: "find_tbl_row doc' r' = Inl err'" by blast
            from rows s have rows': "py_iter d' = Inr (pre' @ r' # post')" by simp
            note gv = first [OF out doc d rows' p f]
            show ?thesis
            proof (cases "pre' = []")
              case True
              with p gv show ?thesis by simp
            next
              case False
              with out doc d rows' p f gv show ?thesis by blast
            qed
          qed
        qed
      qed
    qed
  qed
  from c1 c2 c3 c4 c5 c6 c7 show ?thesis by (intro conjI)
qed

theorem find_tbl_partial_witness:
  "iter_tbl (fixed_env short_cell_out short_cell_doc) ''ovs-vsctl'' ''port'' =
     Yield [(JStr ''name'', JStr ''a'')] (Raise IndexError) \<and>
   find_rows (fixed_env bridge_out bridge_doc) ''ovs-vsctl'' ''bridge'' ''name=br-int'' =
     Yield [(JStr ''name'', JStr ''br-int''), (JStr ''_uuid'', JStr ''1234'')] Stop \<and>
   iter_tbl (failing_env CalledProcessError) ''ovs-vsctl'' ''port'' = Raise CalledProcessError"
proof -
  let ?e1 = "fixed_env short_cell_out short_cell_doc"
  let ?e2 = "fixed_env bridge_out bridge_doc"
  let ?e3 = "failing_env CalledProcessError"
  have g1: "iter_tbl ?e1 ''ovs-vsctl'' ''port'' =
      (case None of None \<Rightarrow> iter_tbl ?e1 ''ovs-vsctl'' ''port''
       | Some c \<Rightarrow> find_rows ?e1 ''ovs-vsctl'' ''port'' c)" by simp
  have g2: "find_rows ?e2 ''ovs-vsctl'' ''bridge'' ''name=br-int'' =
      (case Some ''name=br-int'' of None \<Rightarrow> iter_tbl ?e2 ''ovs-vsctl'' ''bridge''
       | Some c \<Rightarrow> find_rows ?e2 ''ovs-vsctl'' ''bridge'' c)" by simp
  have g3: "iter_tbl ?e3 ''ovs-vsctl'' ''port'' =
      (case None of None \<Rightarrow> iter_tbl ?e3 ''ovs-vsctl'' ''port''
       | Some c \<Rightarrow> find_rows ?e3 ''ovs-vsctl'' ''port'' c)" by simp
  have h1: "run ?e1 (find_tbl_cmd ''ovs-vsctl'' ''port'' None) = Inr short_cell_out \<and>
      loads ?e1 short_cell_out = Inr short_cell_doc \<and>
      py_getitem short_cell_doc ''data'' = Inr (JList [JList [JStr ''a''], JList [JList []]]) \<and>
      py_iter (JList [JList [JStr ''a''], JList [JList []]]) =
        Inr ([JList [JStr ''a'']] @ JList [JList []] # []) \<and>
      map (find_tbl_row short_cell_doc) [JList [JStr ''a'']] = map Inr [[(JStr ''name'', JStr ''a'')]] \<and>
      find_tbl_row short_cell_doc (JList [JList []]) = Inl IndexError"
    by (simp add: fixed_env_def short_cell_doc_def py_getitem_def py_iter_def find_tbl_row_def
        decode_col_def hashable_def)
  have h2: "run ?e2 (find_tbl_cmd ''ovs-vsctl'' ''bridge'' (Some ''name=br-int'')) = Inr bridge_out \<and>
      loads ?e2 bridge_out = Inr bridge_doc \<and>
      py_getitem bridge_doc ''data'' =
        Inr (JList [JList [JStr ''br-int'', JList [JStr ''uuid'', JStr ''1234'']]]) \<and>
      py_iter (JList [JList [JStr ''br-int'', JList [JStr ''uuid'', JStr ''1234'']]]) =
        Inr [JList [JStr ''br-int'', JList [JStr ''uuid'', JStr ''1234'']]] \<and>
      map (find_tbl_row bridge_doc) [JList [JStr ''br-int'', JList [JStr ''uuid'', JStr ''1234'']]] =
        map Inr [[(JStr ''name'', JStr ''br-int''), (JStr ''_uuid'', JStr ''1234'')]]"
    by (simp add: fixed_env_def bridge_doc_def py_getitem_def py_iter_def find_tbl_row_def
        decode_col_def hashable_def py_eq_def py_num_def)
  have h3: "run ?e3 (find_tbl_cmd ''ovs-vsctl'' ''port'' None) = Inl CalledProcessError"
    by (simp add: failing_env_def)
  note t1 = find_tbl_partial [OF g1]
  note t2 = find_tbl_partial [OF g2]
  note t3 = find_tbl_partial [OF g3]
  have a: "iter_tbl ?e1 ''ovs-vsctl'' ''port'' =
      foldr Yield [[(JStr ''name'', JStr ''a'')]] (Raise IndexError)"
    by (rule t1 [THEN conjunct2, THEN conjunct2, THEN conjunct2, THEN conjunct2, THEN conjunct2,
          THEN conjunct1, rule_format, OF h1])
  have b: "find_rows ?e2 ''ovs-vsctl'' ''bridge'' ''name=br-int'' =
      foldr Yield [[(JStr ''name'', JStr ''br-int''), (JStr ''_uuid'', JStr ''1234'')]] Stop"
    by (rule t2 [THEN conjunct2, THEN conjunct2, THEN conjunct2, THEN conjunct2,
          THEN conjunct1, rule_format, OF h2])
  have c: "iter_tbl ?e3 ''ovs-vsctl'' ''port'' = Raise CalledProcessError"
    by (rule t3 [THEN conjunct1, rule_format, OF h3])
  from a b c show ?thesis by simp
qed

section \<open>Leadership\<close>

lemmas call_defs = cluster_status_def ovs_appctl_def ovs_appctl_argv_def run_proc_def
  cluster_status_args_def schema_map_def py_or_def path_join_def OVS_RUNDIR_def

text \<open>
  Claim C4.  \<^verbatim>\<open>is_cluster_leader\<close> returns \<^verbatim>\<open>True\<close> exactly when
  \<^verbatim>\<open>cluster_status\<close> returns a record whose \<open>leader\<close> field is the string
  \<open>self\<close>.  For a record with any other value there, a list, a tuple or another
  string, and for a record without the field, it returns \<^verbatim>\<open>False\<close>.
\<close>

theorem is_cluster_leader_iff:
  "(is_cluster_leader e target schema = Inr True \<longleftrightarrow>
      (\<exists>status. cluster_status e target schema = Inr status \<and>
         map_of status ''leader'' = Some (SStr ''self''))) \<and>
   (cluster_status e target schema = Inr status \<longrightarrow>
      is_cluster_leader e target schema =
        Inr (map_of status ''leader'' = Some (SStr ''self''))) \<and>
   (cluster_status e target schema = Inr status \<and> map_of status ''leader'' = None \<longrightarrow>
      is_cluster_leader e target schema = Inr False)"
  by (cases "cluster_status e target schema") (auto simp: is_cluster_leader_def)

lemma member_report_status:
  "cluster_status (fixed_env member_report JNull) ''ovnsb_db'' None =
     Inr [(''status'', SStr ''cluster member''), (''cluster_id'', STuple [''9f8e'', ''9f8e'']),
          (''leader'', SStr ''self''), (''servers'', SList [''srv-1'', ''srv-2''])]"
  by code_simp

lemma servers_only_status:
  "cluster_status (fixed_env (''Servers:'' @ lf @ ''    srv-1'' @ lf) JNull) ''ovnsb_db'' None =
     Inr [(''servers'', SList [''srv-1''])]"
  by code_simp

theorem is_cluster_leader_iff_witness:
  "cluster_status (fixed_env member_report JNull) ''ovnsb_db'' None =
     Inr [(''status'', SStr ''cluster member''), (''cluster_id'', STuple [''9f8e'', ''9f8e'']),
          (''leader'', SStr ''self''), (''servers'', SList [''srv-1'', ''srv-2''])] \<and>
   is_cluster_leader (fixed_env member_report JNull) ''ovnsb_db'' None = Inr True \<and>
   is_cluster_leader (fixed_env (''Servers:'' @ lf @ ''    srv-1'' @ lf) JNull) ''ovnsb_db'' None =
     Inr False"
proof -
  note a = is_cluster_leader_iff [THEN conjunct2, THEN conjunct1, rule_format,
      OF member_report_status]
  have none: "map_of [(''servers'', SList [''srv-1''])] ''leader'' = None" by simp
  note b = is_cluster_leader_iff [THEN conjunct2, THEN conjunct2, rule_format,
      OF conjI [OF servers_only_status none]]
  from a have "is_cluster_leader (fixed_env member_report JNull) ''ovnsb_db'' None = Inr True"
    by simp
  with member_report_status b show ?thesis by blast
qed

text \<open>
  Against claim C5 as it is written ("including the command not being found").  When the
  executable is missing, \<^verbatim>\<open>subprocess.run\<close> raises FileNotFoundError, which is not a
  CalledProcessError: the \<^verbatim>\<open>except\<close> clause does not catch it.
\<close>

theorem is_cluster_leader_not_found_counterexample:
  "is_cluster_leader (failing_env FileNotFoundError) ''ovnnb_db'' None = Inl FileNotFoundError"
  by code_simp

text \<open>
  Claim C5, as the code has it.  When the command exits non-zero, that is when the
  invocation raises CalledProcessError, \<^verbatim>\<open>is_cluster_leader\<close> returns \<^verbatim>\<open>False\<close>
  and raises nothing.
\<close>

theorem is_cluster_leader_called_process_error:
  assumes "run e (ovs_appctl_argv target (cluster_status_args target schema)) = Inl CalledProcessError"
  shows "is_cluster_leader e target schema = Inr False"
  using assms by (simp add: is_cluster_leader_def cluster_status_def ovs_appctl_def run_proc_def)

theorem is_cluster_leader_called_process_error_witness:
  "run (failing_env CalledProcessError)
     (ovs_appctl_argv ''ovnnb_db'' (cluster_status_args ''ovnnb_db'' None)) = Inl CalledProcessError \<and>
   is_cluster_leader (failing_env CalledProcessError) ''ovnnb_db'' None = Inr False"
  using is_cluster_leader_called_process_error [of "failing_env CalledProcessError" "''ovnnb_db''" None]
  by (simp add: failing_env_def)

section \<open>Target resolution\<close>

text \<open>
  Against claim C8 as it is written ("always overrides").  \<^verbatim>\<open>schema or ...\<close> treats
  an empty string as absent: with the explicit schema \<^verbatim>\<open>''\<close> the command for
  \<open>ovnnb_db\<close> still names \<open>OVN_Northbound\<close>.
\<close>

theorem schema_empty_counterexample:
  "ovs_appctl_argv ''ovnnb_db'' (cluster_status_args ''ovnnb_db'' (Some [])) =
     [Some ''ovs-appctl'', Some ''-t'', Some ''/var/run/openvswitch/ovnnb_db.ctl'',
      Some ''cluster/status'', Some ''OVN_Northbound'']"
  by code_simp

text \<open>
  Claim C8, as the code has it.  The socket and the schema argument are functions of the
  target and the schema alone.  \<open>ovnnb_db\<close> and \<open>ovnsb_db\<close> are replaced by the path of
  their control socket under \<^verbatim>\<open>/var/run/openvswitch\<close> and imply the schemas
  \<open>OVN_Northbound\<close> and \<open>OVN_Southbound\<close>; any other target is passed as it is and
  implies no schema (\<^verbatim>\<open>None\<close> is passed).  A schema that is given and not empty is
  passed in place of the implied one; an empty one counts as not given.  The status
  depends on the process layer only through the output of that one command.
\<close>

theorem target_resolution:
  "ovs_appctl_argv ''ovnnb_db'' args =
     [Some ''ovs-appctl'', Some ''-t'', Some ''/var/run/openvswitch/ovnnb_db.ctl''] @ args \<and>
   ovs_appctl_argv ''ovnsb_db'' args =
     [Some ''ovs-appctl'', Some ''-t'', Some ''/var/run/openvswitch/ovnsb_db.ctl''] @ args \<and>
   (target \<noteq> ''ovnnb_db'' \<and> target \<noteq> ''ovnsb_db'' \<longrightarrow>
      ovs_appctl_argv target args = [Some ''ovs-appctl'', Some ''-t'', Some target] @ args) \<and>
   cluster_status_args ''ovnnb_db'' None = [Some ''cluster/status'', Some ''OVN_Northbound''] \<and>
   cluster_status_args ''ovnsb_db'' None = [Some ''cluster/status'', Some ''OVN_Southbound''] \<and>
   (target \<noteq> ''ovnnb_db'' \<and> target \<noteq> ''ovnsb_db'' \<longrightarrow>
      cluster_status_args target None = [Some ''cluster/status'', None]) \<and>
   (s \<noteq> [] \<longrightarrow> cluster_status_args target (Some s) = [Some ''cluster/status'', Some s]) \<and>
   cluster_status_args target (Some []) = cluster_status_args target None \<and>
   (run e (ovs_appctl_argv target (cluster_status_args target schema)) =
    run e' (ovs_appctl_argv target (cluster_status_args target schema)) \<longrightarrow>
      cluster_status e target schema = cluster_status e' target schema)"
  by (simp add: call_defs)

theorem target_resolution_witness:
  "ovs_appctl_argv ''/tmp/db.ctl'' (cluster_status_args ''/tmp/db.ctl'' None) =
     [Some ''ovs-appctl'', Some ''-t'', Some ''/tmp/db.ctl'', Some ''cluster/status'', None] \<and>
   cluster_status_args ''ovnsb_db'' (Some ''OVN_Northbound'') =
     [Some ''cluster/status'', Some ''OVN_Northbound''] \<and>
   cluster_status (fixed_env member_report JNull) ''ovnsb_db'' None =
     cluster_status (fixed_env member_report bridge_doc) ''ovnsb_db'' None"
  using target_resolution [of "[Some ''cluster/status'', None]" "''/tmp/db.ctl''" "''OVN_Northbound''"]
    target_resolution [of "[]" "''ovnsb_db''" "''OVN_Northbound''"
      "fixed_env member_report JNull" None "fixed_env member_report bridge_doc"]
  by (simp add: fixed_env_def)

section \<open>Parsing the status report\<close>

lemma split_first_append:
  "sep \<notin> set key \<Longrightarrow> split_first sep (key @ sep # v) = (key, v)"
  by (induction key) (auto simp: split_first_def)

lemma status_line_continue:
  "k \<noteq> [] \<Longrightarrow> startswith_space line \<Longrightarrow> map_of st k = Some (SList xs) \<Longrightarrow>
   status_line (st, k) line = Inr (AList.update k (SList (xs @ [lstrip line])) st, k)"
  by (simp add: status_line_def)

lemma status_line_ignore:
  "k = [] \<or> \<not> startswith_space line \<Longrightarrow> CHR '':'' \<notin> set line \<Longrightarrow>
   status_line (st, k) line = Inr (st, k)"
  by (auto simp: status_line_def)

lemma status_line_no_append:
  "k \<noteq> [] \<Longrightarrow> startswith_space line \<Longrightarrow> map_of st k = Some v \<Longrightarrow>
   \<forall>xs. v \<noteq> SList xs \<Longrightarrow> status_line (st, k) line = Inl AttributeError"
  by (cases v) (simp_all add: status_line_def)

lemma status_line_field:
  assumes "CHR '':'' \<notin> set key" and "k0 = [] \<or> \<not> startswith_space (key @ CHR '':'' # v)"
  shows "status_line (st, k0) (key @ CHR '':'' # v) =
     (let k = replace CHR '' '' ''_'' (lower key) in
      if v = [] then Inr (AList.update k (SList []) st, k)
      else if k = ''cluster_id'' \<or> k = ''server_id''
      then Inr (AList.update k (STuple (py_split (replace CHR '')'' [] (replace CHR ''('' [] v)))) st, k)
      else Inr (AList.update k (SStr (lstrip v)) st, k))"
  using assms by (auto simp: status_line_def split_first_append Let_def)

lemma status_loop_append:
  "status_loop (xs @ ys) s =
     (case status_loop xs s of Inl e \<Rightarrow> Inl e | Inr s' \<Rightarrow> status_loop ys s')"
  by (induction xs arbitrary: s) (auto split: sum.splits)

lemma status_loop_continuations:
  assumes "k \<noteq> []" and "\<forall>x \<in> set seg. startswith_space x \<or> CHR '':'' \<notin> set x"
    and "map_of st k = Some (SList xs)"
  shows "status_loop (seg @ rest) (st, k) =
     status_loop rest
       (AList.update k (SList (xs @ map lstrip (filter startswith_space seg))) st, k)"
  using assms(2,3)
proof (induction seg arbitrary: st xs)
  case Nil
  then show ?case by (simp add: AList.update_triv)
next
  case (Cons x seg)
  show ?case
  proof (cases "startswith_space x")
    case True
    let ?st = "AList.update k (SList (xs @ [lstrip x])) st"
    have step: "status_line (st, k) x = Inr (?st, k)"
      using assms(1) True Cons.prems(2) by (rule status_line_continue)
    have "map_of ?st k = Some (SList (xs @ [lstrip x]))" by (simp add: AList.update_conv')
    from Cons.IH [OF _ this] Cons.prems(1) step True show ?thesis by simp
  next
    case False
    with Cons.prems(1) have "CHR '':'' \<notin> set x" by simp
    with False have "status_line (st, k) x = Inr (st, k)" by (simp add: status_line_ignore)
    with Cons.IH [OF _ Cons.prems(2)] Cons.prems(1) False show ?thesis by simp
  qed
qed

text \<open>
  Against claim C6 as it is written ("beginning with whitespace").  The test is
  \<^verbatim>\<open>line.startswith(' ')\<close>: a line indented with a tab is not a continuation, and
  having no colon it is skipped.
\<close>

theorem continuation_tab_counterexample:
  "cluster_status (fixed_env (''Servers:'' @ lf @ [CHR 0x09] @ ''srv-a'' @ lf) JNull) ''ovnsb_db'' None =
     Inr [(''servers'', SList [])]"
  by code_simp

text \<open>
  Claim C6, as the code has it.  Take a line that ends at its first colon and is read as
  a field line: it does not begin with a space, or the cursor is empty.  It stores the
  empty list under its key and makes the key the cursor.  When the key is not empty,
  then of the lines that follow, up to the next line that has a colon and does not begin
  with a space, every line that begins with a space is appended to the list without its
  leading whitespace, in order, and the others change nothing.  The report
  \<^verbatim>\<open>Servers:\<close> with the indented lines \<^verbatim>\<open>srv-a\<close> and \<^verbatim>\<open>srv-b\<close> gives
  the list of \<open>srv-a\<close> and \<open>srv-b\<close> under \<open>servers\<close>.
\<close>

theorem continuation_lines:
  "(CHR '':'' \<notin> set key \<and> (k0 = [] \<or> \<not> startswith_space (key @ '':'')) \<and>
    k = replace CHR '' '' ''_'' (lower key) \<longrightarrow>
      status_line (st, k0) (key @ '':'') = Inr (AList.update k (SList []) st, k) \<and>
      map_of (AList.update k (SList []) st) k = Some (SList [])) \<and>
   (CHR '':'' \<notin> set key \<and> (k0 = [] \<or> \<not> startswith_space (key @ '':'')) \<and>
    k = replace CHR '' '' ''_'' (lower key) \<and> k \<noteq> [] \<and>
    (\<forall>x \<in> set seg. startswith_space x \<or> CHR '':'' \<notin> set x) \<longrightarrow>
      status_loop ((key @ '':'') # seg @ rest) (st, k0) =
        status_loop rest
          (AList.update k (SList (map lstrip (filter startswith_space seg))) st, k)) \<and>
   (run e (ovs_appctl_argv target (cluster_status_args target schema)) =
      Inr (''Servers:'' @ lf @ ''  srv-a'' @ lf @ ''  srv-b'' @ lf) \<longrightarrow>
    cluster_status e target schema = Inr [(''servers'', SList [''srv-a'', ''srv-b''])])"
proof (intro conjI impI)
  assume "CHR '':'' \<notin> set key \<and> (k0 = [] \<or> \<not> startswith_space (key @ '':'')) \<and>
    k = replace CHR '' '' ''_'' (lower key)"
  then show "status_line (st, k0) (key @ '':'') = Inr (AList.update k (SList []) st, k)"
    using status_line_field [of key k0 "[]" st] by (simp add: Let_def)
next
  show "map_of (AList.update k (SList []) st) k = Some (SList [])"
    by (simp add: AList.update_conv')
next
  assume a: "CHR '':'' \<notin> set key \<and> (k0 = [] \<or> \<not> startswith_space (key @ '':'')) \<and>
    k = replace CHR '' '' ''_'' (lower key) \<and> k \<noteq> [] \<and>
    (\<forall>x \<in> set seg. startswith_space x \<or> CHR '':'' \<notin> set x)"
  then have first: "status_line (st, k0) (key @ '':'') = Inr (AList.update k (SList []) st, k)"
    using status_line_field [of key k0 "[]" st] by (simp add: Let_def)
  from a have k: "k \<noteq> []"
    and seg: "\<forall>x \<in> set seg. startswith_space x \<or> CHR '':'' \<notin> set x" by blast+
  have "map_of (AList.update k (SList []) st) k = Some (SList [])"
    by (simp add: AList.update_conv')
  from status_loop_continuations [OF k seg this, of rest] first
  show "status_loop ((key @ '':'') # seg @ rest) (st, k0) =
        status_loop rest
          (AList.update k (SList (map lstrip (filter startswith_space seg))) st, k)"
    by simp
next
  assume "run e (ovs_appctl_argv target (cluster_status_args target schema)) =
      Inr (''Servers:'' @ lf @ ''  srv-a'' @ lf @ ''  srv-b'' @ lf)"
  moreover have "status_loop (splitlines (''Servers:'' @ lf @ ''  srv-a'' @ lf @ ''  srv-b'' @ lf)) ([], []) =
      Inr ([(''servers'', SList [''srv-a'', ''srv-b''])], ''servers'')"
    by code_simp
  ultimately show "cluster_status e target schema = Inr [(''servers'', SList [''srv-a'', ''srv-b''])]"
    by (simp add: cluster_status_def ovs_appctl_def run_proc_def)
qed

theorem continuation_lines_witness:
  "status_line ([(''leader'', SStr ''self'')], ''leader'') '':'' =
     Inr ([(''leader'', SStr ''self''), ([], SList [])], []) \<and>
   status_loop [''Servers:'', ''  srv-a'', [], ''  srv-b'', ''Leader: self''] ([], []) =
     status_loop [''Leader: self''] ([(''servers'', SList [''srv-a'', ''srv-b''])], ''servers'') \<and>
   cluster_status (fixed_env (''Servers:'' @ lf @ ''  srv-a'' @ lf @ ''  srv-b'' @ lf) JNull)
     ''ovnsb_db'' None = Inr [(''servers'', SList [''srv-a'', ''srv-b''])]"
proof -
  let ?seg = "[''  srv-a'', [], ''  srv-b'']"
  let ?e = "fixed_env (''Servers:'' @ lf @ ''  srv-a'' @ lf @ ''  srv-b'' @ lf) JNull"
  have k: "replace CHR '' '' ''_'' (lower ''Servers'') = ''servers''" by code_simp
  have k0: "replace CHR '' '' ''_'' (lower []) = []" by code_simp
  have s: "map lstrip (filter startswith_space ?seg) = [''srv-a'', ''srv-b'']"
    by code_simp
  have h0: "CHR '':'' \<notin> set [] \<and> (''leader'' = [] \<or> \<not> startswith_space ([] @ '':'')) \<and>
    [] = replace CHR '' '' ''_'' (lower [])"
    by (simp add: k0 startswith_space_def)
  have h1: "CHR '':'' \<notin> set ''Servers'' \<and> ([] = [] \<or> \<not> startswith_space (''Servers'' @ '':'')) \<and>
    ''servers'' = replace CHR '' '' ''_'' (lower ''Servers'') \<and> ''servers'' \<noteq> [] \<and>
    (\<forall>x \<in> set ?seg. startswith_space x \<or> CHR '':'' \<notin> set x)"
    by (simp add: k startswith_space_def)
  have h2: "run ?e (ovs_appctl_argv ''ovnsb_db'' (cluster_status_args ''ovnsb_db'' None)) =
      Inr (''Servers:'' @ lf @ ''  srv-a'' @ lf @ ''  srv-b'' @ lf)"
    by (simp add: fixed_env_def)
  note th0 = continuation_lines [of "[]" "''leader''" "[]" "[(''leader'', SStr ''self'')]"]
  note th = continuation_lines [of "''Servers''" "[]" "''servers''" "[]" ?seg
      "[''Leader: self'']" ?e "''ovnsb_db''" None]
  from th0 [THEN conjunct1, rule_format, OF h0, THEN conjunct1]
  have c0: "status_line ([(''leader'', SStr ''self'')], ''leader'') '':'' =
     Inr ([(''leader'', SStr ''self''), ([], SList [])], [])"
    by simp
  from th [THEN conjunct2, THEN conjunct1, rule_format, OF h1]
  have c1: "status_loop [''Servers:'', ''  srv-a'', [], ''  srv-b'', ''Leader: self''] ([], []) =
     status_loop [''Leader: self''] ([(''servers'', SList [''srv-a'', ''srv-b''])], ''servers'')"
    unfolding s by (simp del: status_loop.simps)
  from c0 c1 th [THEN conjunct2, THEN conjunct2, rule_format, OF h2] show ?thesis
    by (intro conjI)
qed

text \<open>
  What \<^verbatim>\<open>cluster_status\<close> makes of a remainder of the form \<^verbatim>\<open>value (shortform)\<close>
  with the parentheses removed: the two words.
\<close>

lemma replace_append: "replace c n (a @ b) = replace c n a @ replace c n b"
  by (simp add: replace_def)

lemma replace_absent: "c \<notin> set s \<Longrightarrow> replace c n s = s"
  by (induction s) (auto simp: replace_def)

lemma replace_Cons: "replace c n (x # xs) = (if x = c then n else [x]) @ replace c n xs"
  by (simp add: replace_def)

lemma replace_Nil: "replace c n [] = []"
  by (simp add: replace_def)

lemma split_from_token:
  "\<forall>c \<in> set tok. \<not> is_space c \<Longrightarrow> split_from cur (tok @ rest) = split_from (cur @ tok) rest"
  by (induction tok arbitrary: cur) auto

lemma split_from_spaces:
  "list_all is_space ws \<Longrightarrow> split_from [] (ws @ rest) = split_from [] rest"
  by (induction ws) auto

lemma not_space_paren: "\<not> is_space CHR ''(''" "\<not> is_space CHR '')''"
  by (simp_all add: is_space_def)

lemma py_split_value_short:
  assumes "value \<noteq> []" "short \<noteq> []" "sp \<noteq> []" "list_all is_space sp0" "list_all is_space sp"
    and tok: "\<forall>c \<in> set (value @ short). \<not> is_space c \<and> c \<noteq> CHR ''('' \<and> c \<noteq> CHR '')''"
  shows "py_split (replace CHR '')'' [] (replace CHR ''('' []
           (sp0 @ value @ sp @ ''('' @ short @ '')''))) = [value, short]"
proof -
  have np: "CHR ''('' \<notin> set sp0" "CHR '')'' \<notin> set sp0" "CHR ''('' \<notin> set sp" "CHR '')'' \<notin> set sp"
    using assms(4,5) not_space_paren by (auto simp: list_all_iff)
  have nt: "CHR ''('' \<notin> set value" "CHR '')'' \<notin> set value"
    "CHR ''('' \<notin> set short" "CHR '')'' \<notin> set short"
    using tok by auto
  have r: "replace CHR '')'' [] (replace CHR ''('' [] (sp0 @ value @ sp @ ''('' @ short @ '')''))
      = sp0 @ value @ sp @ short"
    using np nt by (simp add: replace_append replace_absent replace_Cons replace_Nil)
  from assms(3) obtain c sp' where sp: "sp = c # sp'" by (cases sp) auto
  with assms(5) have c: "is_space c" and sp': "list_all is_space sp'" by simp_all
  have v: "\<forall>c \<in> set value. \<not> is_space c" and s: "\<forall>c \<in> set short. \<not> is_space c"
    using tok by auto
  have "split_from [] (sp0 @ value @ sp @ short) = split_from [] (value @ sp @ short)"
    using assms(4) by (rule split_from_spaces)
  also have "\<dots> = split_from value (c # sp' @ short)"
    using split_from_token [OF v, of "[]" "sp @ short"] sp by simp
  also have "\<dots> = value # split_from [] (sp' @ short)"
    using c assms(1) by simp
  also have "\<dots> = value # split_from [] short"
    using sp' by (simp add: split_from_spaces)
  also have "\<dots> = value # split_from short []"
    using split_from_token [OF s, of "[]" "[]"] by simp
  also have "\<dots> = [value, short]" using assms(2) by simp
  finally show ?thesis unfolding py_split_def r .
qed

text \<open>
  Claim C7.  For the keys \<open>cluster_id\<close> and \<open>server_id\<close> the documentation of
  \<^verbatim>\<open>cluster_status\<close> gives the value the type \<^verbatim>\<open>Tuple[str, str]\<close>: the pair of
  value and shortform.  The code stores \<^verbatim>\<open>tuple(v.split())\<close> once the parentheses
  are removed, and does not look at the number of words.  The report
  \<^verbatim>\<open>Cluster id: abc\<close> gives a tuple of one word and \<^verbatim>\<open>Cluster id: ()\<close> the empty
  tuple, where \<^verbatim>\<open>Cluster id: abcd1234 (abcd)\<close> gives the pair of \<open>abcd1234\<close> and
  \<open>abcd\<close>.
\<close>

theorem cluster_id_word_count:
  "cluster_status (fixed_env ''Cluster id: abc'' JNull) ''ovnsb_db'' None =
     Inr [(''cluster_id'', STuple [''abc''])] \<and>
   cluster_status (fixed_env ''Cluster id: ()'' JNull) ''ovnsb_db'' None =
     Inr [(''cluster_id'', STuple [])] \<and>
   cluster_status (fixed_env ''Cluster id: abcd1234 (abcd)'' JNull) ''ovnsb_db'' None =
     Inr [(''cluster_id'', STuple [''abcd1234'', ''abcd''])]"
  by code_simp

lemma status_line_keeps_cursor:
  "k = [] \<or> map_of st k \<noteq> None \<Longrightarrow> status_line (st, k) line = Inr (st', k') \<Longrightarrow>
   k' = [] \<or> map_of st' k' \<noteq> None"
  by (auto simp: status_line_def Let_def AList.update_conv'
      split: if_splits option.splits sval.splits prod.splits)

lemma status_line_error:
  "k = [] \<or> map_of st k \<noteq> None \<Longrightarrow> status_line (st, k) line = Inl err \<Longrightarrow>
   err = AttributeError"
  by (auto simp: status_line_def Let_def
      split: if_splits option.splits sval.splits prod.splits)

lemma status_loop_error:
  "k = [] \<or> map_of st k \<noteq> None \<Longrightarrow> status_loop ls (st, k) = Inl err \<Longrightarrow>
   err = AttributeError"
proof (induction ls arbitrary: st k)
  case Nil
  then show ?case by simp
next
  case (Cons l ls)
  show ?case
  proof (cases "status_line (st, k) l")
    case (Inl e)
    with Cons.prems show ?thesis using status_line_error [of k st l e] by simp
  next
    case (Inr s')
    obtain st' k' where s': "s' = (st', k')" by (cases s')
    from status_line_keeps_cursor [OF Cons.prems(1)] Inr s'
    have "k' = [] \<or> map_of st' k' \<noteq> None" by simp
    from Cons.IH [OF this] Cons.prems(2) Inr s' show ?thesis by simp
  qed
qed

lemma status_loop_ignored:
  "\<forall>m \<in> set mid. \<not> startswith_space m \<and> CHR '':'' \<notin> set m \<Longrightarrow>
   status_loop (mid @ rest) (st, k) = status_loop rest (st, k)"
  by (induction mid) (auto simp: status_line_ignore)

text \<open>
  Against claim C10 as it is written (every field line).  The continuation branch is
  guarded by \<^verbatim>\<open>k and\<close>: after a line with an empty key the cursor is falsy, and an
  indented line that follows is skipped, not appended.
\<close>

theorem append_to_non_list_counterexample:
  "cluster_status (fixed_env ('':x'' @ lf @ '' y'') JNull) ''ovnsb_db'' None = Inr [([], SStr ''x'')]"
  by code_simp

text \<open>
  Claim C10, as the code has it.  Let a report have a line that is read as a field line,
  with a non-empty key and something after the colon, so that the field holds a string
  or a tuple; let the next line that begins with a space come before any other line
  with a colon.  Then \<^verbatim>\<open>cluster_status\<close> raises AttributeError: neither is the line
  skipped nor the field turned into a list.  When the lines before the field line are
  read without an exception, the exception is raised at that indented line.
\<close>

theorem append_to_non_list:
  assumes run: "run e (ovs_appctl_argv target (cluster_status_args target schema)) = Inr out"
    and ls: "splitlines out = pre @ (key @ CHR '':'' # v) # mid @ l2 # post"
    and key: "CHR '':'' \<notin> set key" "replace CHR '' '' ''_'' (lower key) \<noteq> []"
    and v: "v \<noteq> []"
    and reached: "\<forall>st k0. status_loop pre ([], []) = Inr (st, k0) \<longrightarrow>
        k0 = [] \<or> \<not> startswith_space (key @ CHR '':'' # v)"
    and mid: "\<forall>m \<in> set mid. \<not> startswith_space m \<and> CHR '':'' \<notin> set m"
    and l2: "startswith_space l2"
  shows "cluster_status e target schema = Inl AttributeError \<and>
    (\<forall>st k0. status_loop pre ([], []) = Inr (st, k0) \<longrightarrow>
       (\<exists>s'. status_loop (pre @ (key @ CHR '':'' # v) # mid) ([], []) = Inr s' \<and>
             status_line s' l2 = Inl AttributeError))"
proof -
  let ?l1 = "key @ CHR '':'' # v"
  let ?k = "replace CHR '' '' ''_'' (lower key)"
  have at_l2: "\<exists>s'. status_loop (pre @ ?l1 # mid) ([], []) = Inr s' \<and>
      status_line s' l2 = Inl AttributeError"
    if p: "status_loop pre ([], []) = Inr (st, k0)" for st k0
  proof -
    from p reached have first: "k0 = [] \<or> \<not> startswith_space ?l1" by simp
    define val where "val =
        (if ?k = ''cluster_id'' \<or> ?k = ''server_id''
         then STuple (py_split (replace CHR '')'' [] (replace CHR ''('' [] v)))
         else SStr (lstrip v))"
    have val: "status_line (st, k0) ?l1 = Inr (AList.update ?k val st, ?k)"
      "\<forall>xs. val \<noteq> SList xs"
      using status_line_field [OF key(1) first, of st] v by (simp_all add: Let_def val_def)
    have m: "map_of (AList.update ?k val st) ?k = Some val" by (simp add: AList.update_conv')
    have "status_loop (pre @ ?l1 # mid) ([], []) = Inr (AList.update ?k val st, ?k)"
      using p val(1) status_loop_ignored [OF mid, of "[]"] by (simp add: status_loop_append)
    moreover have "status_line (AList.update ?k val st, ?k) l2 = Inl AttributeError"
      by (rule status_line_no_append [OF key(2) l2 m val(2)])
    ultimately show ?thesis by blast
  qed
  have "status_loop (pre @ ?l1 # mid @ l2 # post) ([], []) = Inl AttributeError"
  proof (cases "status_loop pre ([], [])")
    case (Inl err)
    then have "err = AttributeError" using status_loop_error [of "[]" "[]" pre err] by simp
    with Inl show ?thesis by (simp add: status_loop_append)
  next
    case (Inr s)
    obtain st k0 where "s = (st, k0)" by (cases s)
    with Inr at_l2 obtain s' where a: "status_loop (pre @ ?l1 # mid) ([], []) = Inr s'"
      and b: "status_line s' l2 = Inl AttributeError" by blast
    have "status_loop ((pre @ ?l1 # mid) @ l2 # post) ([], []) = status_loop (l2 # post) s'"
      using a by (simp only: status_loop_append sum.case)
    with b show ?thesis by simp
  qed
  with run ls have "cluster_status e target schema = Inl AttributeError"
    by (simp add: cluster_status_def ovs_appctl_def run_proc_def)
  with at_l2 show ?thesis by blast
qed

theorem append_to_non_list_witness:
  "splitlines (''Leader: self'' @ lf @ ''  extra'' @ lf) = [''Leader: self'', ''  extra''] \<and>
   startswith_space ''  extra'' \<and>
   cluster_status (fixed_env (''Leader: self'' @ lf @ ''  extra'' @ lf) JNull) ''ovnsb_db'' None =
     Inl AttributeError"
proof -
  let ?out = "''Leader: self'' @ lf @ ''  extra'' @ lf"
  have run: "run (fixed_env ?out JNull)
      (ovs_appctl_argv ''ovnsb_db'' (cluster_status_args ''ovnsb_db'' None)) = Inr ?out"
    by (simp add: fixed_env_def)
  have ls: "splitlines ?out = [''Leader: self'', ''  extra'']" by code_simp
  then have ls': "splitlines ?out = [] @ (''Leader'' @ CHR '':'' # '' self'') # [] @ ''  extra'' # []"
    by simp
  have k: "replace CHR '' '' ''_'' (lower ''Leader'') \<noteq> []" by code_simp
  have l2: "startswith_space ''  extra''" by (simp add: startswith_space_def)
  have "cluster_status (fixed_env ?out JNull) ''ovnsb_db'' None = Inl AttributeError"
    by (rule append_to_non_list [OF run ls' _ k _ _ _ l2, THEN conjunct1]) simp_all
  with ls l2 show ?thesis by blast
qed

end
